theory Spec2Isabelle
  imports Main
begin

section \<open>JavaScript values\<close>

text \<open>
  The parser and the tool manager work on parsed YAML/JSON documents and on plain
  JavaScript objects built from them. A value is modelled by the datatype \<open>json\<close>.
  An object is the list of its own properties in enumeration order; \<open>undefined\<close>
  is a value of its own because the code stores it and tests for it.

  Limits of the model, stated once: numbers are integers (no claim depends on
  floating point); characters are bytes and case conversion is ASCII; properties
  inherited from a prototype (\<open>toString\<close>, \<open>constructor\<close>, array and string
  methods) are not modelled, so a document is assumed not to use such names as keys,
  nor keys that are canonical array indices (JavaScript enumerates those first).
\<close>

datatype json =
    JUndefined
  | JNull
  | JBool bool
  | JNum int
  | JStr string
  | JArr "json list"
  | JObj "(string \<times> json) list"

datatype js_error = TypeError | RangeError | Error string

text \<open>JavaScript truthiness: what \<open>if (v)\<close>, \<open>!v\<close>, \<open>a && b\<close> and \<open>a || b\<close> test.\<close>

fun truthy :: "json \<Rightarrow> bool" where
  "truthy JUndefined = False"
| "truthy JNull = False"
| "truthy (JBool b) = b"
| "truthy (JNum n) = (n \<noteq> 0)"
| "truthy (JStr s) = (s \<noteq> [])"
| "truthy (JArr xs) = True"
| "truthy (JObj kvs) = True"

subsection \<open>Strings\<close>

definition starts_with :: "string \<Rightarrow> string \<Rightarrow> bool" where
  "starts_with s p = (take (length p) s = p)"

definition ends_with :: "string \<Rightarrow> string \<Rightarrow> bool" where
  "ends_with s p = (length p \<le> length s \<and> drop (length s - length p) s = p)"

text \<open>\<open>s.includes(p)\<close>\<close>

fun includes_str :: "string \<Rightarrow> string \<Rightarrow> bool" where
  "includes_str [] p = (p = [])"
| "includes_str (c # s) p = (starts_with (c # s) p \<or> includes_str s p)"

definition is_upper :: "char \<Rightarrow> bool" where
  "is_upper c = (65 \<le> (of_char c :: nat) \<and> (of_char c :: nat) \<le> 90)"

definition is_lower :: "char \<Rightarrow> bool" where
  "is_lower c = (97 \<le> (of_char c :: nat) \<and> (of_char c :: nat) \<le> 122)"

definition is_digit :: "char \<Rightarrow> bool" where
  "is_digit c = (48 \<le> (of_char c :: nat) \<and> (of_char c :: nat) \<le> 57)"

definition lower_char :: "char \<Rightarrow> char" where
  "lower_char c = (if is_upper c then char_of ((of_char c :: nat) + 32) else c)"

definition upper_char :: "char \<Rightarrow> char" where
  "upper_char c = (if is_lower c then char_of ((of_char c :: nat) - 32) else c)"

definition toLowerCase :: "string \<Rightarrow> string" where
  "toLowerCase s = map lower_char s"

definition toUpperCase :: "string \<Rightarrow> string" where
  "toUpperCase s = map upper_char s"

subsection \<open>Numbers to strings\<close>

function str_of_nat :: "nat \<Rightarrow> string" where
  "str_of_nat n =
     (if n < 10 then [char_of (48 + n)]
      else str_of_nat (n div 10) @ [char_of (48 + n mod 10)])"
  by pat_completeness auto
termination
  by (relation "measure id") auto

declare str_of_nat.simps [simp del]

definition str_of_int :: "int \<Rightarrow> string" where
  "str_of_int i = (if i < 0 then CHR ''-'' # str_of_nat (nat (- i)) else str_of_nat (nat i))"

fun join_with :: "string \<Rightarrow> string list \<Rightarrow> string" where
  "join_with sep [] = []"
| "join_with sep [x] = x"
| "join_with sep (x # y # r) = x @ sep @ join_with sep (y # r)"

text \<open>\<open>String(v)\<close>, as template literals and \<open>String.prototype.replace\<close> apply it.\<close>

fun js_to_string :: "json \<Rightarrow> string" where
  "js_to_string JUndefined = ''undefined''"
| "js_to_string JNull = ''null''"
| "js_to_string (JBool b) = (if b then ''true'' else ''false'')"
| "js_to_string (JNum n) = str_of_int n"
| "js_to_string (JStr s) = s"
| "js_to_string (JArr xs) =
     join_with '','' (map (\<lambda>x. if x = JUndefined \<or> x = JNull then [] else js_to_string x) xs)"
| "js_to_string (JObj kvs) = ''[object Object]''"

subsection \<open>Objects\<close>


text \<open>\<open>typeof j === 'object'\<close>\<close>

definition typeof_object :: "json \<Rightarrow> bool" where
  "typeof_object j = (case j of JObj kvs \<Rightarrow> True | JArr xs \<Rightarrow> True | JNull \<Rightarrow> True | _ \<Rightarrow> False)"

definition index_of_key :: "string \<Rightarrow> nat \<Rightarrow> nat option" where
  "index_of_key k n = find (\<lambda>i. str_of_nat i = k) [0..<n]"

text \<open>
  \<open>j[k]\<close> on own properties: the fields of an object, the elements and the length of
  an array or a string; \<open>undefined\<close> everywhere else.
\<close>

fun js_get :: "json \<Rightarrow> string \<Rightarrow> json" where
  "js_get (JObj kvs) k = (case map_of kvs k of Some v \<Rightarrow> v | None \<Rightarrow> JUndefined)"
| "js_get (JArr xs) k =
     (if k = ''length'' then JNum (int (length xs))
      else case index_of_key k (length xs) of Some i \<Rightarrow> xs ! i | None \<Rightarrow> JUndefined)"
| "js_get (JStr s) k =
     (if k = ''length'' then JNum (int (length s))
      else case index_of_key k (length s) of Some i \<Rightarrow> JStr [s ! i] | None \<Rightarrow> JUndefined)"
| "js_get j k = JUndefined"

text \<open>\<open>Object.entries(j)\<close> for a value that is neither \<open>null\<close> nor \<open>undefined\<close>.\<close>

fun object_entries :: "json \<Rightarrow> (string \<times> json) list" where
  "object_entries (JObj kvs) = kvs"
| "object_entries (JArr xs) = zip (map str_of_nat [0..<length xs]) xs"
| "object_entries (JStr s) = zip (map str_of_nat [0..<length s]) (map (\<lambda>c. JStr [c]) s)"
| "object_entries j = []"

text \<open>\<open>obj[k] = v\<close>: an existing property keeps its place, a new one goes last.\<close>

fun obj_set :: "('k \<times> 'v) list \<Rightarrow> 'k \<Rightarrow> 'v \<Rightarrow> ('k \<times> 'v) list" where
  "obj_set [] k v = [(k, v)]"
| "obj_set ((k', v') # r) k v = (if k' = k then (k, v) # r else (k', v') # obj_set r k v)"

text \<open>\<open>delete obj[k]\<close>\<close>

definition obj_delete :: "(string \<times> json) list \<Rightarrow> string \<Rightarrow> (string \<times> json) list" where
  "obj_delete kvs k = filter (\<lambda>kv. fst kv \<noteq> k) kvs"

text \<open>
  \<open>Object.assign(target, source)\<close> and the spread \<open>{...target, ...source}\<close>: a property of
  the target that the source also has takes the source's value in place, the other
  properties of the source follow in the source's order.
\<close>

definition obj_assign :: "(string \<times> json) list \<Rightarrow> json \<Rightarrow> (string \<times> json) list" where
  "obj_assign target source =
     map (\<lambda>kv. (fst kv, case map_of (object_entries source) (fst kv) of Some v \<Rightarrow> v | None \<Rightarrow> snd kv)) target
     @ filter (\<lambda>kv. map_of target (fst kv) = None) (object_entries source)"

subsection \<open>\<open>String.prototype.replace\<close> with a string pattern\<close>

text \<open>The first occurrence of \<open>p\<close> in \<open>s\<close>: what stands before it and after it.\<close>

fun split_first :: "string \<Rightarrow> string \<Rightarrow> (string \<times> string) option" where
  "split_first [] p = (if p = [] then Some ([], []) else None)"
| "split_first (c # t) p =
     (if starts_with (c # t) p then Some ([], drop (length p) (c # t))
      else case split_first t p of None \<Rightarrow> None | Some ba \<Rightarrow> Some (c # fst ba, snd ba))"

text \<open>
  The replacement text is expanded as JavaScript does (GetSubstitution, no capture
  groups): \<open>$$\<close> is a dollar, \<open>$&\<close> the match, \<open>$`\<close> the text before it and
  \<open>$'\<close> the text after it; any other dollar stands for itself.
\<close>

fun get_substitution :: "string \<Rightarrow> string \<Rightarrow> string \<Rightarrow> string \<Rightarrow> string" where
  "get_substitution matched before after [] = []"
| "get_substitution matched before after [c] = [c]"
| "get_substitution matched before after (c # d # r) =
     (if c = CHR ''$'' \<and> d = CHR ''$'' then CHR ''$'' # get_substitution matched before after r
      else if c = CHR ''$'' \<and> d = CHR ''&'' then matched @ get_substitution matched before after r
      else if c = CHR ''$'' \<and> d = CHR 0x60 then before @ get_substitution matched before after r
      else if c = CHR ''$'' \<and> d = CHR 0x27 then after @ get_substitution matched before after r
      else c # get_substitution matched before after (d # r))"

text \<open>\<open>s.replace(pattern, value)\<close>: only the first occurrence is replaced.\<close>

definition js_replace :: "string \<Rightarrow> json \<Rightarrow> json \<Rightarrow> string" where
  "js_replace s pattern val =
     (let p = js_to_string pattern in
      case split_first s p of
        None \<Rightarrow> s
      | Some ba \<Rightarrow> fst ba @ get_substitution p (fst ba) (snd ba) (js_to_string val) @ snd ba)"

section \<open>Naming of tools and of workflow steps\<close>

text \<open>
  \<^verbatim>\<open>getSingularName(name)\<close> of the parser names the item steps of a workflow:
  a trailing \<open>s\<close> is removed unless the name ends in \<open>ss\<close>.
\<close>

definition getSingularName :: "string \<Rightarrow> string" where
  "getSingularName name =
     (if ends_with name ''s'' \<and> \<not> ends_with name ''ss'' then butlast name else name)"

text \<open>
  \<^verbatim>\<open>generateToolName(method, endpointName)\<close> of the tool manager names the tools.
  Its own singular form removes every trailing \<open>s\<close>. The table \<open>methodMap\<close> is
  looked up by the operation key; an unknown key falls back to the lower-cased key and
  the endpoint name.
\<close>

definition generateToolName :: "string \<Rightarrow> string \<Rightarrow> string" where
  "generateToolName method endpointName =
     (let singularName = (if ends_with endpointName ''s'' then butlast endpointName else endpointName)
      in if method = ''GET'' then ''get_'' @ singularName
         else if method = ''GET_COLLECTION'' then ''list_'' @ endpointName
         else if method = ''POST'' then ''create_'' @ singularName
         else if method = ''PUT'' then ''update_'' @ singularName
         else if method = ''PATCH'' then ''patch_'' @ singularName
         else if method = ''DELETE'' then ''delete_'' @ singularName
         else toLowerCase method @ ''_'' @ endpointName)"

lemma getSingularName_users: "getSingularName ''users'' = ''user''"
  by (simp add: getSingularName_def ends_with_def)

section \<open>Data model\<close>

record operation =
  op_operationId :: json
  op_summary :: json
  op_description :: json
  op_parameters :: json
  op_requestBody :: json
  op_responses :: json
  op_path :: string
  op_isCollection :: bool

record endpoint =
  ep_name :: string
  ep_path :: string
  ep_methods :: "string list"
  ep_operations :: "(string \<times> operation) list"
  ep_schema :: json

text \<open>A step without \<open>args\<close> has \<open>step_args = JUndefined\<close>.\<close>

record step =
  step_action :: string
  step_description :: string
  step_args :: json

record workflow =
  wf_name :: string
  wf_description :: string
  wf_steps :: "step list"

record config =
  apiBaseUrl :: string
  cfg_endpoints :: "(string \<times> endpoint) list"
  cfg_workflows :: "(string \<times> workflow) list"

record tool =
  tool_name :: string
  tool_endpoint :: string
  tool_method :: string
  tool_operation :: operation

section \<open>Tool manager: context resolution\<close>

text \<open>
  The context store is a JavaScript \<open>Map\<close>: \<open>store k = None\<close> when \<open>has(k)\<close> is false.
\<close>

type_synonym context_store = "json \<Rightarrow> json option"

text \<open>
  First part of \<^verbatim>\<open>resolveContextReferences(args, testContext)\<close>: the copy of the
  arguments and the merge of the object stored under \<open>args.fromContext\<close>.
\<close>

definition mergeFromContext :: "json \<Rightarrow> context_store \<Rightarrow> (string \<times> json) list" where
  "mergeFromContext args store =
     (let resolved = obj_assign [] args;
          key = js_get args ''fromContext''
      in if truthy key then
           (case store key of
              None \<Rightarrow> resolved
            | Some contextData \<Rightarrow>
                (let r1 = (if truthy contextData \<and> typeof_object contextData
                           then obj_assign resolved contextData else resolved);
                     r2 = obj_assign r1 args
                 in if truthy contextData \<and> typeof_object contextData
                       \<and> truthy (js_get contextData ''id'') \<and> \<not> truthy (js_get args ''id'')
                    then obj_set r2 ''id'' (js_get contextData ''id'')
                    else r2))
         else resolved)"

text \<open>
  \<^verbatim>\<open>replaceDynamicMarker(obj, marker, value)\<close>: strings are rewritten with
  \<open>replace\<close>, arrays and objects are rebuilt around their rewritten parts.
\<close>

fun replaceDynamicMarker :: "json \<Rightarrow> json \<Rightarrow> json \<Rightarrow> json" where
  "replaceDynamicMarker (JStr s) marker val = JStr (js_replace s marker val)"
| "replaceDynamicMarker (JArr xs) marker val =
     JArr (map (\<lambda>x. replaceDynamicMarker x marker val) xs)"
| "replaceDynamicMarker (JObj kvs) marker val =
     JObj (map (\<lambda>kv. (fst kv, replaceDynamicMarker (snd kv) marker val)) kvs)"
| "replaceDynamicMarker j marker val = j"

text \<open>
  The loop \<^verbatim>\<open>for (const [key, value] of Object.entries(resolved))\<close> that rewrites
  every argument except the flag itself.
\<close>

definition replace_in_entries ::
  "string \<Rightarrow> json \<Rightarrow> json \<Rightarrow> (string \<times> json) list \<Rightarrow> (string \<times> json) list" where
  "replace_in_entries flag marker val resolved =
     map (\<lambda>kv. if fst kv \<noteq> flag then (fst kv, replaceDynamicMarker (snd kv) marker val) else kv)
       resolved"

text \<open>
  \<open>store.get(key)[0].id\<close> when the stored value is a non-empty array; reading \<open>id\<close>
  of \<open>null\<close> or \<open>undefined\<close> throws.
\<close>

definition lookup_first_id :: "context_store \<Rightarrow> json \<Rightarrow> js_error + json option" where
  "lookup_first_id store key =
     (case store key of
        Some (JArr (x # xs)) \<Rightarrow>
          (if x = JUndefined \<or> x = JNull then Inl TypeError else Inr (Some (js_get x ''id'')))
      | _ \<Rightarrow> Inr None)"

definition existing_key :: "json \<Rightarrow> json" where
  "existing_key fkDep = JStr (''existing_'' @ js_to_string (js_get fkDep ''targetEndpoint''))"

fun resolveForeignKeys ::
  "context_store \<Rightarrow> json list \<Rightarrow> (string \<times> json) list \<Rightarrow> js_error + (string \<times> json) list" where
  "resolveForeignKeys store [] resolved = Inr resolved"
| "resolveForeignKeys store (fkDep # deps) resolved =
     (if fkDep = JUndefined \<or> fkDep = JNull then Inl TypeError
      else case lookup_first_id store (existing_key fkDep) of
             Inl e \<Rightarrow> Inl e
           | Inr None \<Rightarrow> resolveForeignKeys store deps resolved
           | Inr (Some foreignKeyValue) \<Rightarrow>
               resolveForeignKeys store deps
                 (replace_in_entries ''_dynamicForeignKeys'' (js_get fkDep ''marker'')
                    foreignKeyValue resolved))"

definition resolveContextReferences ::
  "json \<Rightarrow> context_store \<Rightarrow> js_error + (string \<times> json) list" where
  "resolveContextReferences args store =
     (case (case js_get args ''_dynamicForeignKeys'' of
              JArr deps \<Rightarrow>
                (case resolveForeignKeys store deps (mergeFromContext args store) of
                   Inl e \<Rightarrow> Inl e
                 | Inr r \<Rightarrow> Inr (obj_delete r ''_dynamicForeignKeys''))
            | _ \<Rightarrow> Inr (mergeFromContext args store)) of
        Inl e \<Rightarrow> Inl e
      | Inr resolved \<Rightarrow>
          if truthy (js_get args ''_dynamicAuthorId'') \<and> store (JStr ''existing_users'') \<noteq> None
          then (case lookup_first_id store (JStr ''existing_users'') of
                  Inl e \<Rightarrow> Inl e
                | Inr None \<Rightarrow> Inr resolved
                | Inr (Some authorId) \<Rightarrow>
                    Inr (obj_delete
                           (replace_in_entries ''_dynamicAuthorId'' (JStr ''{{EXISTING_USER_ID}}'')
                              authorId resolved)
                           ''_dynamicAuthorId''))
          else Inr resolved)"

section \<open>Tool manager: endpoint tools\<close>

text \<open>
  The HTTP client is a collaborator. A request is the method, the URL and the body; the
  client answers from the requests sent before and the present one, with an error
  message or with a status and the response data. The state of a call is the context
  store and the log of the requests passed to the client.
\<close>

type_synonym http_request = "string \<times> string \<times> json"

record http_response =
  resp_status :: int
  resp_data :: json

type_synonym http_client = "http_request list \<Rightarrow> http_request \<Rightarrow> string + http_response"

record call_state =
  store :: context_store
  sent :: "http_request list"

text \<open>
  The result of \<^verbatim>\<open>formatResponse(method, endpointName, response)\<close> keeps the parts
  of the text (method, endpoint, status, data); a core tool answers with a text.
\<close>

datatype content = Response string string int json | Text string

type_synonym handler = "json \<Rightarrow> call_state \<Rightarrow> (js_error + content) \<times> call_state"

text \<open>
  What a tool manager holds: the configuration, the HTTP client, the platform's
  \<open>URLSearchParams\<close> rendering of the query parameters, the handlers of the core tools
  and the endpoint tools by name.
\<close>

record server =
  srv_config :: config
  srv_http :: http_client
  srv_encodeQuery :: "json \<Rightarrow> js_error + string"
  srv_coreTools :: "string \<Rightarrow> handler option"
  srv_endpointTools :: "string \<Rightarrow> tool option"

text \<open>One match of \<open>/\{[^}]+\}/\<close> at the head of a string: the match and the rest.\<close>

definition match_param :: "string \<Rightarrow> (string \<times> string) option" where
  "match_param s =
     (case s of
        [] \<Rightarrow> None
      | c # t \<Rightarrow>
          if c = CHR ''{'' then
            (let run = takeWhile (\<lambda>x. x \<noteq> CHR ''}'') t;
                 rest = dropWhile (\<lambda>x. x \<noteq> CHR ''}'') t
             in if run \<noteq> [] \<and> rest \<noteq> [] then Some (c # run @ [CHR ''}''], tl rest) else None)
          else None)"

lemma match_param_shorter: "match_param s = Some ma \<Longrightarrow> length (snd ma) < length s"
proof -
  assume a: "match_param s = Some ma"
  then obtain c t where s: "s = c # t"
    by (cases s) (auto simp: match_param_def)
  have "length (tl (dropWhile (\<lambda>x. x \<noteq> CHR ''}'') t)) \<le> length t"
    using length_dropWhile_le [of "\<lambda>x. x \<noteq> CHR ''}''" t] by simp
  with a s show ?thesis
    by (auto simp: match_param_def Let_def split: if_splits)
qed

text \<open>\<open>url.replace(/\{[^}]+\}/g, id)\<close>; \<open>before\<close> is the part of the URL already read.\<close>

function replace_params :: "string \<Rightarrow> string \<Rightarrow> string \<Rightarrow> string" where
  "replace_params before [] repl = []"
| "replace_params before (c # t) repl =
     (case match_param (c # t) of
        Some ma \<Rightarrow>
          get_substitution (fst ma) before (snd ma) repl
            @ replace_params (before @ fst ma) (snd ma) repl
      | None \<Rightarrow> c # replace_params (before @ [c]) t repl)"
  by pat_completeness auto
termination
proof (relation "measure (\<lambda>(before, s, repl). length s)")
  show "wf (measure (\<lambda>(before, s, repl). length s))" by simp
next
  fix before c t repl ma
  assume "match_param (c # t) = Some ma"
  from match_param_shorter [OF this]
  show "((before @ fst ma, snd ma, repl), (before, c # t, repl)) \<in> measure (\<lambda>(before, s, repl). length s)"
    by simp
next
  fix before :: string and c :: char and t repl :: string
  show "((before @ [c], t, repl), (before, c # t, repl)) \<in> measure (\<lambda>(before, s, repl). length s)"
    by simp
qed

definition reserved_keys :: "string list" where
  "reserved_keys = [''id'', ''queryParams'', ''saveToContext'', ''fromContext'', ''data'']"

definition http_method_of :: "string \<Rightarrow> string" where
  "http_method_of m = (if m = ''GET_COLLECTION'' then ''GET'' else m)"

text \<open>The request body: the raw \<open>data\<close> object overlaid with the individual fields.\<close>

definition build_request_data :: "string \<Rightarrow> (string \<times> json) list \<Rightarrow> js_error + json" where
  "build_request_data tmethod resolvedArgs =
     (let httpMethod = http_method_of tmethod in
      if httpMethod \<in> set [''POST'', ''PUT'', ''PATCH''] then
        (let d = js_get (JObj resolvedArgs) ''data'';
             base = (if truthy d \<and> typeof_object d then obj_assign [] d else []);
             data = fold (\<lambda>kv acc. if fst kv \<notin> set reserved_keys \<and> snd kv \<noteq> JUndefined
                                    then obj_set acc (fst kv) (snd kv) else acc)
                      resolvedArgs base
         in if httpMethod = ''POST'' \<and> data = []
            then Inl (Error (''No data provided for '' @ tmethod
                   @ '' operation. Provide either individual fields or a 'data' object.''))
            else Inr (JObj data))
      else Inr JNull)"

text \<open>
  \<^verbatim>\<open>handleEndpointTool\<close> up to the request: every way to fail before the HTTP
  client is called, or the request to send.
\<close>

definition prepare_request :: "server \<Rightarrow> tool \<Rightarrow> json \<Rightarrow> context_store \<Rightarrow> js_error + http_request" where
  "prepare_request srv t args st =
     (case map_of (cfg_endpoints (srv_config srv)) (tool_endpoint t) of
        None \<Rightarrow> Inl (Error (''Endpoint not found: '' @ tool_endpoint t))
      | Some endpoint \<Rightarrow>
          (case resolveContextReferences args st of
             Inl e \<Rightarrow> Inl e
           | Inr resolvedArgs \<Rightarrow>
               (let pathToUse = op_path (tool_operation t);
                    url0 = apiBaseUrl (srv_config srv) @ pathToUse;
                    idv = js_get (JObj resolvedArgs) ''id''
                in if includes_str pathToUse ''{'' \<and> \<not> truthy idv
                   then Inl (Error (''ID parameter is required for '' @ tool_method t
                          @ '' operation on '' @ pathToUse))
                   else
                     (let url1 = (if includes_str pathToUse ''{''
                                  then replace_params [] url0 (js_to_string idv) else url0);
                          q = js_get (JObj resolvedArgs) ''queryParams''
                      in case (if truthy q
                               then (case srv_encodeQuery srv q of
                                       Inl e \<Rightarrow> Inl e
                                     | Inr params \<Rightarrow> Inr (url1 @ ''?'' @ params))
                               else Inr url1) of
                           Inl e \<Rightarrow> Inl e
                         | Inr url \<Rightarrow>
                             (case build_request_data (tool_method t) resolvedArgs of
                                Inl e \<Rightarrow> Inl e
                              | Inr data \<Rightarrow> Inr (http_method_of (tool_method t), url, data))))))"

definition handleEndpointTool ::
  "server \<Rightarrow> string \<Rightarrow> json \<Rightarrow> call_state \<Rightarrow> (js_error + content) \<times> call_state" where
  "handleEndpointTool srv toolName args st =
     (case srv_endpointTools srv toolName of
        None \<Rightarrow> (Inl TypeError, st)
      | Some t \<Rightarrow>
          (case prepare_request srv t args (store st) of
             Inl e \<Rightarrow> (Inl e, st)
           | Inr req \<Rightarrow>
               (case srv_http srv (sent st) req of
                  Inl msg \<Rightarrow>
                    (Inl (Error (tool_method t @ '' '' @ fst (snd req) @ '' failed: '' @ msg)),
                     st\<lparr>sent := sent st @ [req]\<rparr>)
                | Inr response \<Rightarrow>
                    (Inr (Response (fst req) (tool_endpoint t) (resp_status response) (resp_data response)),
                     st\<lparr>store :=
                          (if truthy (js_get args ''saveToContext'') \<and> truthy (resp_data response)
                           then (store st)(js_get args ''saveToContext'' \<mapsto> resp_data response)
                           else store st),
                        sent := sent st @ [req]\<rparr>))))"

definition handleToolCall ::
  "server \<Rightarrow> string \<Rightarrow> json \<Rightarrow> call_state \<Rightarrow> (js_error + content) \<times> call_state" where
  "handleToolCall srv toolName args st =
     (case srv_coreTools srv toolName of
        Some h \<Rightarrow> h args st
      | None \<Rightarrow>
          (case srv_endpointTools srv toolName of
             Some t \<Rightarrow> handleEndpointTool srv toolName args st
           | None \<Rightarrow> (Inl (Error (''Unknown tool: '' @ toolName)), st)))"

section \<open>Tool manager: running a workflow\<close>

text \<open>The lines of the report, without their decoration and without the duration.\<close>

datatype report_line =
    Starting string
  | Describing string
  | StepStart nat string
  | StepOutput content
  | Completed
  | Failed js_error
  | Blank
  | Finished

definition content_has_text :: "content \<Rightarrow> bool" where
  "content_has_text c = (case c of Response m e s d \<Rightarrow> True | Text t \<Rightarrow> t \<noteq> [])"

text \<open>
  The loop over the steps of \<^verbatim>\<open>handleRunWorkflow\<close>, from step number \<open>i\<close> (counted
  from 0). The \<open>break\<close> on \<open>args.stopOnError\<close> leaves the loop before the blank line.
\<close>

fun run_steps ::
  "server \<Rightarrow> json \<Rightarrow> nat \<Rightarrow> step list \<Rightarrow> call_state \<Rightarrow> report_line list \<times> call_state" where
  "run_steps srv stopOnError i [] st = ([], st)"
| "run_steps srv stopOnError i (s # rest) st =
     (let start = StepStart (i + 1)
                    (if step_description s \<noteq> [] then step_description s else step_action s);
          r = handleToolCall srv (step_action s)
                (if truthy (step_args s) then step_args s else JObj []) st
      in case fst r of
           Inr c \<Rightarrow>
             (let more = run_steps srv stopOnError (i + 1) rest (snd r)
              in (start # (if content_has_text c then [StepOutput c] else [])
                    @ [Completed, Blank] @ fst more, snd more))
         | Inl e \<Rightarrow>
             if truthy stopOnError then ([start, Failed e], snd r)
             else (let more = run_steps srv stopOnError (i + 1) rest (snd r)
                   in (start # Failed e # Blank # fst more, snd more)))"

definition handleRunWorkflow ::
  "server \<Rightarrow> json \<Rightarrow> call_state \<Rightarrow> (js_error + report_line list) \<times> call_state" where
  "handleRunWorkflow srv args st =
     (case map_of (cfg_workflows (srv_config srv)) (js_to_string (js_get args ''workflow'')) of
        None \<Rightarrow> (Inl (Error (''Unknown workflow: '' @ js_to_string (js_get args ''workflow''))), st)
      | Some w \<Rightarrow>
          (let run = run_steps srv (js_get args ''stopOnError'') 0 (wf_steps w) st
           in (Inr (Starting (wf_name w) # Describing (wf_description w) # fst run @ [Finished]),
               snd run)))"

section \<open>Parser: schema references\<close>

text \<open>\<open>part in j\<close> for a value with \<open>typeof j === 'object'\<close>.\<close>

fun js_in :: "string \<Rightarrow> json \<Rightarrow> bool" where
  "js_in k (JObj kvs) = (map_of kvs k \<noteq> None)"
| "js_in k (JArr xs) = (k = ''length'' \<or> index_of_key k (length xs) \<noteq> None)"
| "js_in k j = False"

text \<open>\<open>s.split(c)\<close>: never empty, \<open>''''.split(c)\<close> is \<open>['''']\<close>.\<close>

fun split_on :: "char \<Rightarrow> string \<Rightarrow> string list" where
  "split_on c [] = [[]]"
| "split_on c (x # xs) =
     (if x = c then [] # split_on c xs
      else case split_on c xs of [] \<Rightarrow> [[x]] | h # t \<Rightarrow> (x # h) # t)"

text \<open>\<open>ref.replace(/^#\//, '').split('/')\<close>\<close>

definition ref_path :: "string \<Rightarrow> string list" where
  "ref_path r = split_on CHR ''/'' (if starts_with r ''#/'' then drop 2 r else r)"

text \<open>The walk from the document root along the parts of the path.\<close>

fun walk_ref :: "json \<Rightarrow> string list \<Rightarrow> json option" where
  "walk_ref resolved [] = Some resolved"
| "walk_ref resolved (part # parts) =
     (if truthy resolved \<and> typeof_object resolved \<and> js_in part resolved
      then walk_ref (js_get resolved part) parts
      else None)"

text \<open>
  The loop that resolves every property value:
  \<^verbatim>\<open>for (const [key, value] of Object.entries(properties)) resolved[key] = f(value)\<close>,
  stopping at the first exception.
\<close>

fun map_entries ::
  "(json \<Rightarrow> js_error + json) \<Rightarrow> (string \<times> json) list \<Rightarrow> js_error + (string \<times> json) list" where
  "map_entries f [] = Inr []"
| "map_entries f (kv # r) =
     (case f (snd kv) of
        Inl e \<Rightarrow> Inl e
      | Inr v \<Rightarrow> (case map_entries f r of Inl e \<Rightarrow> Inl e | Inr r' \<Rightarrow> Inr ((fst kv, v) # r')))"

text \<open>
  \<^verbatim>\<open>resolveSchemaReference(schemaOrRef)\<close>. JavaScript recursion is bounded by the call
  stack: \<open>depth\<close> is the number of nested calls the stack still allows, and a call
  beyond it throws \<open>RangeError\<close> (a reference cycle ends so). A \<open>$ref\<close> that is not a
  string has no \<open>replace\<close> method.
\<close>

fun resolveSchemaReference :: "nat \<Rightarrow> json \<Rightarrow> json \<Rightarrow> js_error + json" where
  "resolveSchemaReference 0 spec schemaOrRef = Inl RangeError"
| "resolveSchemaReference (Suc depth) spec schemaOrRef =
     (if \<not> truthy schemaOrRef then Inr JNull
      else if truthy (js_get schemaOrRef ''$ref'') then
        (case js_get schemaOrRef ''$ref'' of
           JStr r \<Rightarrow>
             (case walk_ref spec (ref_path r) of
                None \<Rightarrow> Inr JNull
              | Some resolved \<Rightarrow> resolveSchemaReference depth spec resolved)
         | _ \<Rightarrow> Inl TypeError)
      else if js_get schemaOrRef ''type'' = JStr ''object'' \<and> truthy (js_get schemaOrRef ''properties'') then
        (case map_entries (resolveSchemaReference depth spec)
                (object_entries (js_get schemaOrRef ''properties'')) of
           Inl e \<Rightarrow> Inl e
         | Inr resolvedProperties \<Rightarrow>
             Inr (JObj (obj_set (obj_assign [] schemaOrRef) ''properties'' (JObj resolvedProperties))))
      else if js_get schemaOrRef ''type'' = JStr ''array'' \<and> truthy (js_get schemaOrRef ''items'') then
        (case resolveSchemaReference depth spec (js_get schemaOrRef ''items'') of
           Inl e \<Rightarrow> Inl e
         | Inr items \<Rightarrow> Inr (JObj (obj_set (obj_assign [] schemaOrRef) ''items'' items)))
      else Inr schemaOrRef)"


section \<open>Parser: foreign keys\<close>

text \<open>\<^verbatim>\<open>pluralize(word)\<close>\<close>

definition pluralize :: "string \<Rightarrow> string" where
  "pluralize word =
     (if ends_with word ''y'' then butlast word @ ''ies''
      else if ends_with word ''s'' \<or> ends_with word ''x'' \<or> ends_with word ''z''
              \<or> ends_with word ''ch'' \<or> ends_with word ''sh'' then word @ ''es''
      else word @ ''s'')"

text \<open>
  The three patterns \<open>/^(.+)id$/i\<close>, \<open>/^(.+)_id$/i\<close> and \<open>/^id_(.+)$/i\<close>, each giving
  its captured group. A dot matches any character but a line terminator.
\<close>

definition dot_plus :: "string \<Rightarrow> bool" where
  "dot_plus s = (s \<noteq> [] \<and> (\<forall>c \<in> set s. c \<noteq> CHR 0x0A \<and> c \<noteq> CHR 0x0D))"

definition match_suffix :: "string \<Rightarrow> string \<Rightarrow> string option" where
  "match_suffix suf s =
     (let n = length s - length suf
      in if length suf \<le> length s \<and> toLowerCase (drop n s) = suf \<and> dot_plus (take n s)
         then Some (take n s) else None)"

definition match_prefix :: "string \<Rightarrow> string \<Rightarrow> string option" where
  "match_prefix pre s =
     (if toLowerCase (take (length pre) s) = pre \<and> dot_plus (drop (length pre) s)
      then Some (drop (length pre) s) else None)"

definition fkPatterns :: "(string \<Rightarrow> string option) list" where
  "fkPatterns = [match_suffix ''id'', match_suffix ''_id'', match_prefix ''id_'']"

definition resourceMappings :: "(string \<times> string) list" where
  "resourceMappings =
     [(''author'', ''users''), (''user'', ''users''), (''owner'', ''users''),
      (''creator'', ''users''), (''category'', ''categories''), (''tag'', ''tags'')]"

text \<open>
  \<open>resourceMappings[targetResource] || this.pluralize(targetResource)\<close>. The table is an
  object literal: for the two lower-case names that every object inherits the lookup
  gives a value that is no string, hence no key of the registry.
\<close>

definition targetEndpoint_of :: "string \<Rightarrow> string option" where
  "targetEndpoint_of targetResource =
     (if targetResource = ''constructor'' \<or> targetResource = ''__proto__'' then None
      else Some (case map_of resourceMappings targetResource of
                   Some e \<Rightarrow> e
                 | None \<Rightarrow> pluralize targetResource))"

text \<open>The candidates of a property name, one for each pattern that matches, in order.\<close>

definition fk_candidates :: "string \<Rightarrow> (string \<times> string) list" where
  "fk_candidates propName =
     concat (map (\<lambda>pattern.
        case pattern propName of
          None \<Rightarrow> []
        | Some captured \<Rightarrow>
            (case targetEndpoint_of (toLowerCase captured) of
               None \<Rightarrow> []
             | Some targetEndpoint \<Rightarrow> [(toLowerCase captured, targetEndpoint)])) fkPatterns)"

record foreign_key_info =
  fk_sourceProperty :: string
  fk_targetEndpoint :: string
  fk_targetResource :: string

text \<open>
  \<^verbatim>\<open>detectForeignKeyRelationship(propName, propSchema, currentEndpoint)\<close>: the first
  candidate whose endpoint is in the registry.
\<close>

definition detectForeignKeyRelationship ::
  "(string \<times> endpoint) list \<Rightarrow> string \<Rightarrow> json \<Rightarrow> string \<Rightarrow> foreign_key_info option" where
  "detectForeignKeyRelationship endpoints propName propSchema currentEndpoint =
     (if js_get propSchema ''format'' = JStr ''uuid'' then
        (case find (\<lambda>c. map_of endpoints (snd c) \<noteq> None) (fk_candidates propName) of
           None \<Rightarrow> None
         | Some c \<Rightarrow> Some \<lparr>fk_sourceProperty = propName, fk_targetEndpoint = snd c,
                           fk_targetResource = fst c\<rparr>)
      else None)"

section \<open>Parser: sample data\<close>

text \<open>A loop over a list that threads an accumulator and stops at the first exception.\<close>

fun fold_err :: "('a \<Rightarrow> 's \<Rightarrow> js_error + 's) \<Rightarrow> 'a list \<Rightarrow> 's \<Rightarrow> js_error + 's" where
  "fold_err f [] s = Inr s"
| "fold_err f (x # xs) s = (case f x s of Inl e \<Rightarrow> Inl e | Inr s' \<Rightarrow> fold_err f xs s')"

lemma fold_err_cong [fundef_cong]:
  "xs = ys \<Longrightarrow> s = t \<Longrightarrow> (\<And>x a. x \<in> set ys \<Longrightarrow> f x a = g x a) \<Longrightarrow> fold_err f xs s = fold_err g ys t"
  by (induction ys arbitrary: xs s t) (auto split: sum.splits)

text \<open>
  What \<open>for (const propName of required)\<close> iterates: nothing when \<open>required\<close> is absent
  (the default \<open>[]\<close>), the elements of an array, the characters of a string; any other
  value is not iterable.
\<close>

definition iterate_required :: "json \<Rightarrow> js_error + json list" where
  "iterate_required required =
     (case required of
        JUndefined \<Rightarrow> Inr []
      | JArr xs \<Rightarrow> Inr xs
      | JStr s \<Rightarrow> Inr (map (\<lambda>c. JStr [c]) s)
      | _ \<Rightarrow> Inl TypeError)"

definition string_sample :: "string \<Rightarrow> string \<Rightarrow> json \<Rightarrow> string" where
  "string_sample propName lowerPropName format =
     (if format = JStr ''password'' \<or> includes_str lowerPropName ''password'' then ''WorkflowTestPass123!''
      else if format = JStr ''uri'' \<or> includes_str lowerPropName ''url'' then ''https://example.com/test''
      else if includes_str lowerPropName ''firstname'' \<or> includes_str lowerPropName ''first_name'' then ''Workflow''
      else if includes_str lowerPropName ''lastname'' \<or> includes_str lowerPropName ''last_name'' then ''TestUser''
      else if includes_str lowerPropName ''fullname'' \<or> includes_str lowerPropName ''full_name'' then ''Workflow TestUser''
      else if includes_str lowerPropName ''username'' then ''workflow_tester''
      else if includes_str lowerPropName ''title'' then ''Sample Workflow Title''
      else if includes_str lowerPropName ''description'' then ''This is a sample description generated for testing.''
      else if includes_str lowerPropName ''content'' then ''This is sample content for a test entry.''
      else if includes_str lowerPropName ''phone'' then ''123-456-7890''
      else if includes_str lowerPropName ''address'' then ''123 Test St, Sample City''
      else if includes_str lowerPropName ''city'' then ''Sample City''
      else if includes_str lowerPropName ''country'' then ''USA''
      else if includes_str lowerPropName ''zip'' \<or> includes_str lowerPropName ''postal'' then ''12345''
      else if includes_str lowerPropName ''name'' then ''Sample '' @ propName
      else ''test_'' @ lowerPropName)"

lemma size_entry: "(k, v) \<in> set kvs \<Longrightarrow> size v < Suc (size_list (size_prod (\<lambda>x. 0) size) kvs)"
  by (induction kvs) auto

lemma size_map_of: "map_of kvs k = Some v \<Longrightarrow> size v < Suc (size_list (size_prod (\<lambda>x. 0) size) kvs)"
  by (rule size_entry [OF map_of_SomeD])

lemma size_member: "x \<in> set xs \<Longrightarrow> size x < Suc (size_list size xs)"
  by (induction xs) auto

lemma size_nth: "i < length xs \<Longrightarrow> size (xs ! i) < Suc (size_list size xs)"
  by (rule size_member) simp

lemma index_of_key_less: "index_of_key k n = Some i \<Longrightarrow> i < n"
  by (auto simp: index_of_key_def find_Some_iff)

lemma size_js_get_le: "size (js_get j k) \<le> size j"
  by (cases j)
     (auto split: option.splits dest!: size_map_of index_of_key_less
           intro: less_imp_le dest: size_nth less_imp_le)

lemma size_js_get_less:
  assumes "js_get j t = JStr s" and "1 < length s"
  shows "size (js_get j k) < size j"
proof (cases j)
  case (JObj kvs)
  then show ?thesis by (auto split: option.splits dest!: size_map_of)
next
  case (JArr xs)
  then show ?thesis by (auto split: option.splits dest!: index_of_key_less dest: size_nth)
next
  case (JStr u)
  with assms show ?thesis by (auto split: if_splits option.splits)
qed (use assms in auto)

lemma size_object_entries: "(k, v) \<in> set (object_entries j) \<Longrightarrow> size v \<le> size j"
proof (cases j)
  case (JObj kvs)
  assume "(k, v) \<in> set (object_entries j)"
  with JObj show ?thesis using size_entry [of k v kvs] by simp
next
  case (JArr xs)
  assume "(k, v) \<in> set (object_entries j)"
  with JArr have "v \<in> set xs" by (auto dest: set_zip_rightD)
  then obtain i where "i < length xs" "xs ! i = v" by (auto simp: in_set_conv_nth)
  with JArr show ?thesis using size_nth [of i xs] by auto
next
  case (JStr s)
  assume "(k, v) \<in> set (object_entries j)"
  with JStr show ?thesis by (auto dest!: set_zip_rightD)
qed auto

text \<open>
  \<^verbatim>\<open>generateSampleValueForProp(propName, propSchema, endpointName)\<close> and
  \<^verbatim>\<open>generateSampleData(schema, endpointName)\<close>. The name of a required property is
  whatever the list \<open>required\<close> holds; \<open>toLowerCase\<close> exists on strings only. The schema
  of a property may be \<open>null\<close> (an unresolved reference), and reading \<open>readOnly\<close> of it
  throws.
\<close>

function (sequential)
  generateSampleValueForProp ::
    "(string \<times> endpoint) list \<Rightarrow> json \<Rightarrow> json \<Rightarrow> string \<Rightarrow> js_error + json"
  and generateSampleData ::
    "(string \<times> endpoint) list \<Rightarrow> json \<Rightarrow> string \<Rightarrow> js_error + (string \<times> json) list"
where
  "generateSampleValueForProp endpoints propName propSchema endpointName =
     (if js_get propSchema ''example'' \<noteq> JUndefined then Inr (js_get propSchema ''example'')
      else if truthy (js_get propSchema ''enum'') then Inr (js_get (js_get propSchema ''enum'') ''0'')
      else case propName of
        JStr name \<Rightarrow>
          (let type = js_get propSchema ''type'';
               format = js_get propSchema ''format'';
               lowerPropName = toLowerCase name
           in if type = JStr ''string'' then
                (if format = JStr ''email'' \<or> includes_str lowerPropName ''email''
                   then Inr (JStr ''workflow.test@example.com'')
                 else if format = JStr ''date'' then Inr (JStr ''2025-01-01'')
                 else if format = JStr ''date-time'' then Inr (JStr ''2025-01-01T10:00:00Z'')
                 else if format = JStr ''uuid'' then
                   (case detectForeignKeyRelationship endpoints name propSchema endpointName of
                      Some foreignKeyInfo \<Rightarrow>
                        Inr (JStr (''{{DYNAMIC_'' @ toUpperCase (fk_targetEndpoint foreignKeyInfo) @ ''_ID}}''))
                    | None \<Rightarrow> Inr (JStr ''123e4567-e89b-12d3-a456-426614174000''))
                 else Inr (JStr (string_sample name lowerPropName format)))
              else if type = JStr ''integer'' \<or> type = JStr ''number'' then
                Inr (if js_get propSchema ''minimum'' \<noteq> JUndefined
                     then js_get propSchema ''minimum'' else JNum 10)
              else if type = JStr ''boolean'' then Inr (JBool True)
              else if type = JStr ''array'' then
                (if truthy (js_get propSchema ''items'') then
                   (case generateSampleValueForProp endpoints (JStr (name @ ''_item''))
                           (js_get propSchema ''items'') endpointName of
                      Inl e \<Rightarrow> Inl e
                    | Inr v \<Rightarrow> Inr (JArr [v]))
                 else Inr (JArr []))
              else if type = JStr ''object'' then
                (case generateSampleData endpoints propSchema endpointName of
                   Inl e \<Rightarrow> Inl e
                 | Inr sample \<Rightarrow> Inr (JObj sample))
              else Inr JNull)
      | _ \<Rightarrow> Inl TypeError)"
| "generateSampleData endpoints schema endpointName =
     (if \<not> truthy schema \<or> js_get schema ''type'' \<noteq> JStr ''object''
         \<or> \<not> truthy (js_get schema ''properties'') then Inr []
      else
        (let properties = js_get schema ''properties'' in
         case iterate_required (js_get schema ''required'') of
           Inl e \<Rightarrow> Inl e
         | Inr required \<Rightarrow>
             (case fold_err
                     (\<lambda>propName sampleData.
                        let p = js_get properties (js_to_string propName) in
                        if truthy p then
                          (if truthy (js_get p ''readOnly'') then Inr sampleData
                           else case generateSampleValueForProp endpoints propName p endpointName of
                                  Inl e \<Rightarrow> Inl e
                                | Inr v \<Rightarrow> Inr (obj_set sampleData (js_to_string propName) v))
                        else Inr sampleData)
                     required [] of
                Inl e \<Rightarrow> Inl e
              | Inr sampleData1 \<Rightarrow>
                  fold_err
                    (\<lambda>kv sampleData.
                       if map_of sampleData (fst kv) \<noteq> None then Inr sampleData
                       else if snd kv = JNull \<or> snd kv = JUndefined then Inl TypeError
                       else if truthy (js_get (snd kv) ''readOnly'') then Inr sampleData
                       else case generateSampleValueForProp endpoints (JStr (fst kv)) (snd kv) endpointName of
                              Inl e \<Rightarrow> Inl e
                            | Inr v \<Rightarrow> Inr (obj_set sampleData (fst kv) v))
                    (object_entries properties) sampleData1)))"
  by pat_completeness auto
termination
proof (relation "measure (\<lambda>x. case x of
           Inl (endpoints, propName, propSchema, endpointName) \<Rightarrow> 2 * size propSchema + 1
         | Inr (endpoints, schema, endpointName) \<Rightarrow> 2 * size schema)", goal_cases)
  case 1
  show ?case by simp
next
  case (2 endpoints propName propSchema endpointName name type format lowerPropName)
  then have "js_get propSchema ''type'' = JStr ''array''" by simp
  from size_js_get_less [OF this, of "''items''"] show ?case by simp
next
  case (3 endpoints propName propSchema endpointName name type format lowerPropName)
  show ?case by simp
next
  case (4 endpoints schema endpointName properties required propName sampleData p)
  then have t: "js_get schema ''type'' = JStr ''object''" by simp
  have "size p \<le> size properties"
    using 4 size_js_get_le [of properties "js_to_string propName"] by simp
  moreover have "size properties < size schema"
    using 4 size_js_get_less [OF t, of "''properties''"] by simp
  ultimately show ?case by simp
next
  case (5 endpoints schema endpointName properties required sampleData1 kv sampleData)
  then have t: "js_get schema ''type'' = JStr ''object''" by simp
  have "size (snd kv) \<le> size properties"
    using 5 size_object_entries [of "fst kv" "snd kv" properties] by simp
  moreover have "size properties < size schema"
    using 5 size_js_get_less [OF t, of "''properties''"] by simp
  ultimately show ?case by simp
qed

section \<open>Parser: dependencies of a sample payload\<close>













text \<open>The first \<open>Some\<close> among the results of \<open>f\<close>: a loop that returns from inside.\<close>

fun first_some :: "('a \<Rightarrow> 'b option) \<Rightarrow> 'a list \<Rightarrow> 'b option" where
  "first_some f [] = None"
| "first_some f (x # xs) = (case f x of Some y \<Rightarrow> Some y | None \<Rightarrow> first_some f xs)"

lemma first_some_cong [fundef_cong]:
  "xs = ys \<Longrightarrow> (\<And>x. x \<in> set ys \<Longrightarrow> f x = g x) \<Longrightarrow> first_some f xs = first_some g ys"
  by (induction ys arbitrary: xs) (auto split: option.splits)






section \<open>Parser: workflows\<close>













section \<open>Notions of the specification and example values\<close>






text \<open>
  A reference left in a schema, as the resolver walks it: a node with a \<open>$ref\<close> that
  counts (a non-empty one), reached through the properties of nodes of type \<open>object\<close>
  and the items of nodes of type \<open>array\<close>.
\<close>

inductive unresolved_ref :: "json \<Rightarrow> bool" where
  here: "truthy (js_get j ''$ref'') \<Longrightarrow> unresolved_ref j"
| in_property:
    "js_get j ''type'' = JStr ''object'' \<Longrightarrow> truthy (js_get j ''properties'')
     \<Longrightarrow> (k, v) \<in> set (object_entries (js_get j ''properties''))
     \<Longrightarrow> unresolved_ref v \<Longrightarrow> unresolved_ref j"
| in_items:
    "js_get j ''type'' = JStr ''array'' \<Longrightarrow> truthy (js_get j ''items'')
     \<Longrightarrow> unresolved_ref (js_get j ''items'') \<Longrightarrow> unresolved_ref j"

text \<open>
  A \<open>$ref\<close> key reached through \<open>properties\<close> and \<open>items\<close> whatever the type of the
  nodes on the way.
\<close>

inductive ref_key_reachable :: "json \<Rightarrow> bool" where
  key_here: "js_in ''$ref'' j \<Longrightarrow> ref_key_reachable j"
| key_in_property:
    "(k, v) \<in> set (object_entries (js_get j ''properties'')) \<Longrightarrow> ref_key_reachable v
     \<Longrightarrow> ref_key_reachable j"
| key_in_items: "ref_key_reachable (js_get j ''items'') \<Longrightarrow> ref_key_reachable j"

definition ex_body :: "string \<Rightarrow> json" where
  "ex_body schemaName =
     JObj [(''content'', JObj [(''application/json'',
             JObj [(''schema'', JObj [(''$ref'', JStr (''#/components/schemas/'' @ schemaName))])])])]"

definition ex_op :: "string \<Rightarrow> json \<Rightarrow> operation" where
  "ex_op p body =
     \<lparr>op_operationId = JUndefined, op_summary = JUndefined, op_description = JUndefined,
      op_parameters = JArr [], op_requestBody = body, op_responses = JObj [],
      op_path = p, op_isCollection = \<not> ends_with p ''}''\<rparr>"

definition ex_spec :: json where
  "ex_spec =
     JObj [(''components'', JObj [(''schemas'', JObj
       [(''User'', JObj [(''type'', JStr ''object''),
                        (''required'', JArr [JStr ''name'', JStr ''email'']),
                        (''properties'', JObj
                           [(''id'', JObj [(''type'', JStr ''string''), (''format'', JStr ''uuid''),
                                          (''readOnly'', JBool True)]),
                            (''name'', JObj [(''type'', JStr ''string'')]),
                            (''email'', JObj [(''type'', JStr ''string''), (''format'', JStr ''email'')])])]),
        (''Post'', JObj [(''type'', JStr ''object''),
                        (''required'', JArr [JStr ''title'', JStr ''authorId'']),
                        (''properties'', JObj
                           [(''title'', JObj [(''type'', JStr ''string'')]),
                            (''authorId'', JObj [(''type'', JStr ''string''), (''format'', JStr ''uuid'')])])])])])]"

definition ex_users :: endpoint where
  "ex_users =
     \<lparr>ep_name = ''users'', ep_path = ''/users'',
      ep_methods = [''GET'', ''POST'', ''PUT'', ''DELETE''],
      ep_operations =
        [(''GET_COLLECTION'', ex_op ''/users'' JUndefined),
         (''POST'', ex_op ''/users'' (ex_body ''User'')),
         (''GET'', ex_op ''/users/{id}'' JUndefined),
         (''PUT'', ex_op ''/users/{id}'' (ex_body ''User'')),
         (''DELETE'', ex_op ''/users/{id}'' JUndefined)],
      ep_schema = JNull\<rparr>"

definition ex_posts :: endpoint where
  "ex_posts =
     \<lparr>ep_name = ''posts'', ep_path = ''/posts'',
      ep_methods = [''GET'', ''POST'', ''DELETE''],
      ep_operations =
        [(''GET_COLLECTION'', ex_op ''/posts'' JUndefined),
         (''POST'', ex_op ''/posts'' (ex_body ''Post'')),
         (''GET'', ex_op ''/posts/{id}'' JUndefined),
         (''DELETE'', ex_op ''/posts/{id}'' JUndefined)],
      ep_schema = JNull\<rparr>"

definition ex_logs :: endpoint where
  "ex_logs =
     \<lparr>ep_name = ''logs'', ep_path = ''/logs'',
      ep_methods = [''GET'', ''POST'', ''DELETE''],
      ep_operations =
        [(''GET_COLLECTION'', ex_op ''/logs'' JUndefined),
         (''POST'', ex_op ''/logs'' JUndefined),
         (''DELETE'', ex_op ''/logs/{id}'' JUndefined)],
      ep_schema = JNull\<rparr>"

definition ex_endpoints :: "(string \<times> endpoint) list" where
  "ex_endpoints = [(''users'', ex_users), (''posts'', ex_posts), (''logs'', ex_logs)]"

definition ex_nested_ref :: json where
  "ex_nested_ref =
     JObj [(''type'', JStr ''object''),
           (''properties'', JObj
              [(''author'', JObj [(''$ref'', JStr ''#/components/schemas/User'')]),
               (''posts'', JObj [(''type'', JStr ''array''),
                                (''items'', JObj [(''$ref'', JStr ''#/components/schemas/Post'')])])])]"

definition ex_untyped_ref :: json where
  "ex_untyped_ref =
     JObj [(''properties'', JObj [(''owner'', JObj [(''$ref'', JStr ''#/components/schemas/User'')])])]"

definition ex_uuid_schema :: json where
  "ex_uuid_schema = JObj [(''type'', JStr ''string''), (''format'', JStr ''uuid'')]"

definition ex_users_marker :: string where
  "ex_users_marker = ''{{DYNAMIC_USERS_ID}}''"

definition ex_dep :: json where
  "ex_dep = JObj [(''sourceProperty'', JStr ''authorId''), (''targetEndpoint'', JStr ''users''),
                  (''marker'', JStr ex_users_marker)]"

definition ex_create_args :: json where
  "ex_create_args =
     JObj [(''saveToContext'', JStr ''created_post''),
           (''data'', JObj [(''authorId'', JStr ex_users_marker), (''reviewers'', JArr [JStr ex_users_marker])]),
           (''authorId'', JStr ex_users_marker),
           (''_dynamicForeignKeys'', JArr [ex_dep])]"

definition ex_users_store :: context_store where
  "ex_users_store = [JStr ''existing_users'' \<mapsto> JArr [JObj [(''id'', JStr ''u-1'')]]]"

definition ex_twice_args :: json where
  "ex_twice_args =
     JObj [(''note'', JStr (ex_users_marker @ '' and '' @ ex_users_marker)),
           (''_dynamicForeignKeys'', JArr [ex_dep])]"

definition ex_merge_args :: json where
  "ex_merge_args = JObj [(''fromContext'', JStr ''created_user''), (''name'', JStr ''explicit'')]"

definition ex_merge_store :: context_store where
  "ex_merge_store =
     [JStr ''created_user'' \<mapsto>
        JObj [(''id'', JStr ''42''), (''name'', JStr ''stored''), (''email'', JStr ''a@b.c'')]]"

definition ex_empty_id_args :: json where
  "ex_empty_id_args = JObj [(''fromContext'', JStr ''created_user''), (''id'', JStr [])]"

definition ex_list_tool :: tool where
  "ex_list_tool = \<lparr>tool_name = ''list_users'', tool_endpoint = ''users'',
                    tool_method = ''GET_COLLECTION'', tool_operation = ex_op ''/users'' JUndefined\<rparr>"

definition ex_get_tool :: tool where
  "ex_get_tool = \<lparr>tool_name = ''get_user'', tool_endpoint = ''users'',
                   tool_method = ''GET'', tool_operation = ex_op ''/users/{id}'' JUndefined\<rparr>"

definition ex_tools :: "string \<Rightarrow> tool option" where
  "ex_tools = [''list_users'' \<mapsto> ex_list_tool, ''get_user'' \<mapsto> ex_get_tool]"

definition ex_workflow :: workflow where
  "ex_workflow =
     \<lparr>wf_name = ''w'', wf_description = ''two lists'',
      wf_steps = [\<lparr>step_action = ''list_users'', step_description = ''first'', step_args = JUndefined\<rparr>,
                  \<lparr>step_action = ''list_users'', step_description = ''second'', step_args = JUndefined\<rparr>]\<rparr>"

definition ex_config :: config where
  "ex_config =
     \<lparr>apiBaseUrl = ''http://localhost:3000/api'',
      cfg_endpoints =
        [(''users'', \<lparr>ep_name = ''users'', ep_path = ''/users'', ep_methods = [''GET''],
            ep_operations = [(''GET_COLLECTION'', ex_op ''/users'' JUndefined),
                             (''GET'', ex_op ''/users/{id}'' JUndefined)],
            ep_schema = JNull\<rparr>)],
      cfg_workflows = [(''w'', ex_workflow)]\<rparr>"

definition ex_server :: "http_client \<Rightarrow> server" where
  "ex_server http =
     \<lparr>srv_config = ex_config, srv_http = http, srv_encodeQuery = (\<lambda>q. Inr []),
      srv_coreTools = (\<lambda>n. None), srv_endpointTools = ex_tools\<rparr>"

definition ex_state :: "context_store \<Rightarrow> call_state" where
  "ex_state s = \<lparr>store = s, sent = []\<rparr>"

definition ex_http_users :: http_client where
  "ex_http_users = (\<lambda>log req. Inr \<lparr>resp_status = 200, resp_data = JArr [JObj [(''id'', JStr ''u-1'')]]\<rparr>)"

definition ex_http_empty :: http_client where
  "ex_http_empty = (\<lambda>log req. Inr \<lparr>resp_status = 204, resp_data = JStr []\<rparr>)"

definition ex_http_down :: http_client where
  "ex_http_down = (\<lambda>log req. Inl ''No response received from server'')"




section \<open>Properties\<close>




lemma map_of_obj_set:
  "map_of (obj_set kvs k v) k' = (if k' = k then Some v else map_of kvs k')"
  by (induction kvs) auto

lemma obj_assign_empty: "obj_assign [] source = object_entries source"
  by (simp add: obj_assign_def)








lemma map_of_fold_replace_flag:
  "map fst (fold (\<lambda>ms acc. replace_in_entries flag (fst ms) (snd ms) acc) subs r) = map fst r"
  by (induction subs arbitrary: r) (auto simp: replace_in_entries_def comp_def)






text \<open>
  Claim C9, as amended. After a successful call the store holds the response payload
  under \<open>args.saveToContext\<close>, every other key unchanged, when both the key and the
  payload count (are truthy); otherwise, and so for a payload that is \<open>null\<close>, empty,
  \<open>false\<close> or 0, the store is unchanged.
\<close>
theorem saveToContext_effect:
  assumes "handleEndpointTool srv toolName args st = (Inr (Response m e s payload), st')"
  shows "store st' =
           (if truthy (js_get args ''saveToContext'') \<and> truthy payload
            then (store st)(js_get args ''saveToContext'' \<mapsto> payload)
            else store st)"
  using assms by (auto simp: handleEndpointTool_def split: option.splits sum.splits)

text \<open>
  Claim C10. A call of a tool whose path has a parameter, whose resolved arguments have
  no \<open>id\<close> that counts, fails with an error that names what is missing, and the state
  is the one before the call: the same store, no request passed to the HTTP client.
\<close>
theorem missing_id_fails_before_request:
  assumes "srv_endpointTools srv toolName = Some t"
    and "includes_str (op_path (tool_operation t)) ''{''"
    and "resolveContextReferences args (store st) = Inr resolved"
    and "\<not> truthy (js_get (JObj resolved) ''id'')"
  shows "handleEndpointTool srv toolName args st =
           (Inl (Error (case map_of (cfg_endpoints (srv_config srv)) (tool_endpoint t) of
                          None \<Rightarrow> ''Endpoint not found: '' @ tool_endpoint t
                        | Some ep \<Rightarrow> ''ID parameter is required for '' @ tool_method t
                                      @ '' operation on '' @ op_path (tool_operation t))),
            st)"
  using assms
  by (auto simp: handleEndpointTool_def prepare_request_def Let_def split: option.splits)

lemma run_steps_abort:
  assumes "truthy stop"
  shows "run_steps srv stop i pre st = (ls, st1) \<Longrightarrow> (\<forall>e. Failed e \<notin> set ls) \<Longrightarrow>
     handleToolCall srv (step_action s) (if truthy (step_args s) then step_args s else JObj []) st1
       = (Inl e, st2) \<Longrightarrow>
     run_steps srv stop i (pre @ s # post) st =
       (ls @ [StepStart (i + length pre + 1)
                (if step_description s \<noteq> [] then step_description s else step_action s),
              Failed e], st2)"
proof (induction pre arbitrary: i st ls)
  case Nil
  then show ?case using assms by (simp add: Let_def)
next
  case (Cons p ps)
  let ?r = "handleToolCall srv (step_action p)
              (if truthy (step_args p) then step_args p else JObj []) st"
  from Cons.prems(1,2) assms obtain c where c: "fst ?r = Inr c"
    by (cases "fst ?r") (auto simp: Let_def)
  obtain ls' st' where m: "run_steps srv stop (i + 1) ps (snd ?r) = (ls', st')"
    by (cases "run_steps srv stop (i + 1) ps (snd ?r)")
  from Cons.prems(1) c m have ls: "ls = StepStart (i + 1)
        (if step_description p \<noteq> [] then step_description p else step_action p)
        # (if content_has_text c then [StepOutput c] else []) @ [Completed, Blank] @ ls'"
    and st1: "st' = st1"
    by (auto simp: Let_def)
  from Cons.prems(2) ls have nf: "\<forall>e. Failed e \<notin> set ls'" by auto
  from Cons.IH [OF m [unfolded st1] nf Cons.prems(3)]
  have "run_steps srv stop (i + 1) (ps @ s # post) (snd ?r) =
       (ls' @ [StepStart (i + 1 + length ps + 1)
                (if step_description s \<noteq> [] then step_description s else step_action s),
              Failed e], st2)" by simp
  with c ls show ?case by (simp add: Let_def)
qed

lemma run_steps_continue:
  assumes "\<not> truthy stop"
  shows "run_steps srv stop i pre st = (ls, st1) \<Longrightarrow>
     handleToolCall srv (step_action s) (if truthy (step_args s) then step_args s else JObj []) st1
       = (Inl e, st2) \<Longrightarrow>
     run_steps srv stop i (pre @ s # post) st =
       (ls @ StepStart (i + length pre + 1)
                (if step_description s \<noteq> [] then step_description s else step_action s)
            # Failed e # Blank # fst (run_steps srv stop (i + length pre + 1) post st2),
        snd (run_steps srv stop (i + length pre + 1) post st2))"
proof (induction pre arbitrary: i st ls)
  case Nil
  then show ?case using assms by (simp add: Let_def)
next
  case (Cons p ps)
  let ?r = "handleToolCall srv (step_action p)
              (if truthy (step_args p) then step_args p else JObj []) st"
  obtain ls' st' where m: "run_steps srv stop (i + 1) ps (snd ?r) = (ls', st')"
    by (cases "run_steps srv stop (i + 1) ps (snd ?r)")
  from Cons.prems(1) m assms have st1: "st' = st1"
    by (cases "fst ?r") (auto simp: Let_def)
  from Cons.IH [OF m [unfolded st1] Cons.prems(2)]
  have ih: "run_steps srv stop (i + 1) (ps @ s # post) (snd ?r) =
       (ls' @ StepStart (i + 1 + length ps + 1)
                (if step_description s \<noteq> [] then step_description s else step_action s)
            # Failed e # Blank # fst (run_steps srv stop (i + 1 + length ps + 1) post st2),
        snd (run_steps srv stop (i + 1 + length ps + 1) post st2))" by simp
  show ?case
    using Cons.prems(1) m assms ih
    by (cases "fst ?r") (auto simp: Let_def)
qed

text \<open>
  Claim C8 fails on the code. For the endpoint \<open>address\<close> the workflow names its
  create step \<open>create_address\<close> and the tool manager names the tool
  \<open>create_addres\<close>: the step has no tool to run.
\<close>
theorem singular_names_disagree:
  "getSingularName ''address'' = ''address''
   \<and> generateToolName ''POST'' ''address'' = ''create_addres''"
  by (simp add: getSingularName_def generateToolName_def ends_with_def)

declare generateSampleValueForProp.simps [simp del] generateSampleData.simps [simp del]

subsection \<open>Schema resolution\<close>

lemma str_of_nat_digits: "c \<in> set (str_of_nat n) \<Longrightarrow> is_digit c"
proof (induction n rule: str_of_nat.induct)
  case (1 n)
  show ?case
  proof (cases "n < 10")
    case True
    with "1.prems" show ?thesis
      using str_of_nat.simps [of n] by (auto simp: is_digit_def)
  next
    case False
    with "1.prems" "1.IH" show ?thesis
      using str_of_nat.simps [of n] by (auto simp: is_digit_def)
  qed
qed

lemma index_of_key_nondigit: "c \<in> set k \<Longrightarrow> \<not> is_digit c \<Longrightarrow> index_of_key k n = None"
  by (auto simp: index_of_key_def find_None_iff dest: str_of_nat_digits)

lemma typed_node_is_object:
  assumes "js_get j ''type'' = JStr s" and "1 < length s"
  shows "\<exists>kvs. j = JObj kvs"
proof (cases j)
  case (JArr xs)
  have "index_of_key ''type'' (length xs) = None"
    by (rule index_of_key_nondigit [of "CHR ''t''"]) (simp_all add: is_digit_def)
  with JArr assms show ?thesis by simp
next
  case (JStr u)
  with assms show ?thesis by (auto split: if_splits option.splits)
qed (use assms in auto)

lemma js_get_obj_set:
  "js_get (JObj (obj_set kvs k v)) k' = (if k' = k then v else js_get (JObj kvs) k')"
  by (simp add: map_of_obj_set)

lemma obj_set_idem: "obj_set (obj_set kvs k v) k v = obj_set kvs k v"
  by (induction kvs) auto

lemma map_entries_mem:
  "map_entries f es = Inr rs \<Longrightarrow> (k, v') \<in> set rs \<Longrightarrow> \<exists>v. (k, v) \<in> set es \<and> f v = Inr v'"
proof (induction es arbitrary: rs)
  case Nil
  then show ?case by simp
next
  case (Cons kv es)
  from Cons.prems(1) obtain v1 r' where a: "f (snd kv) = Inr v1" "map_entries f es = Inr r'"
    "rs = (fst kv, v1) # r'"
    by (auto split: sum.splits)
  from Cons.prems(2) a(3) consider "k = fst kv \<and> v' = v1" | "(k, v') \<in> set r'" by auto
  then show ?case
  proof cases
    case 1
    then have "(k, snd kv) \<in> set (kv # es)" by (cases kv) simp
    with a(1) 1 show ?thesis by blast
  next
    case 2
    from Cons.IH [OF a(2) 2] show ?thesis by auto
  qed
qed

lemma map_entries_id:
  "(\<And>k v. (k, v) \<in> set es \<Longrightarrow> f v = Inr v) \<Longrightarrow> map_entries f es = Inr es"
proof (induction es)
  case Nil
  then show ?case by simp
next
  case (Cons kv es)
  have "f (snd kv) = Inr (snd kv)" using Cons.prems [of "fst kv" "snd kv"] by simp
  moreover have "map_entries f es = Inr es"
  proof (rule Cons.IH)
    fix k v assume "(k, v) \<in> set es"
    then show "f v = Inr v" using Cons.prems [of k v] by simp
  qed
  ultimately show ?case by simp
qed

lemma no_ref_null: "\<not> unresolved_ref JNull"
  by (auto elim: unresolved_ref.cases)

lemma resolve_result_cases:
  assumes "resolveSchemaReference (Suc depth) spec node = Inr r"
  obtains
    (falsy) "\<not> truthy node" "r = JNull"
  | (dangling) "truthy node" "r = JNull"
  | (ref) target where "truthy node" "resolveSchemaReference depth spec target = Inr r"
  | (object) kvs rp where "node = JObj kvs" "\<not> truthy (js_get node ''$ref'')"
      "js_get node ''type'' = JStr ''object''"
      "map_entries (resolveSchemaReference depth spec) (object_entries (js_get node ''properties'')) = Inr rp"
      "r = JObj (obj_set kvs ''properties'' (JObj rp))"
  | (array) kvs it where "node = JObj kvs" "\<not> truthy (js_get node ''$ref'')"
      "js_get node ''type'' = JStr ''array''"
      "resolveSchemaReference depth spec (js_get node ''items'') = Inr it"
      "r = JObj (obj_set kvs ''items'' it)"
  | (unchanged) "truthy node" "\<not> truthy (js_get node ''$ref'')"
      "\<not> (js_get node ''type'' = JStr ''object'' \<and> truthy (js_get node ''properties''))"
      "\<not> (js_get node ''type'' = JStr ''array'' \<and> truthy (js_get node ''items''))"
      "r = node"
proof (cases "truthy node")
  case False
  with assms falsy show ?thesis by simp
next
  case t: True
  show ?thesis
  proof (cases "truthy (js_get node ''$ref'')")
    case True
    with assms t have c: "(case js_get node ''$ref'' of
           JStr r0 \<Rightarrow>
             (case walk_ref spec (ref_path r0) of
                None \<Rightarrow> Inr JNull
              | Some resolved \<Rightarrow> resolveSchemaReference depth spec resolved)
         | _ \<Rightarrow> Inl TypeError) = Inr r"
      by simp
    then obtain r0 where r0: "js_get node ''$ref'' = JStr r0"
      by (cases "js_get node ''$ref''") simp_all
    show ?thesis
    proof (cases "walk_ref spec (ref_path r0)")
      case None
      with c r0 have "r = JNull" by simp
      with t show ?thesis by (rule dangling)
    next
      case (Some target)
      with c r0 have "resolveSchemaReference depth spec target = Inr r" by simp
      with t show ?thesis by (rule ref)
    qed
  next
    case nr: False
    show ?thesis
    proof (cases "js_get node ''type'' = JStr ''object'' \<and> truthy (js_get node ''properties'')")
      case True
      then obtain kvs where k: "node = JObj kvs"
        using typed_node_is_object [of node "''object''"] by auto
      from assms t nr True have "(case map_entries (resolveSchemaReference depth spec)
                (object_entries (js_get node ''properties'')) of
           Inl e \<Rightarrow> Inl e
         | Inr rp \<Rightarrow> Inr (JObj (obj_set (obj_assign [] node) ''properties'' (JObj rp)))) = Inr r"
        by simp
      then obtain rp where
        "map_entries (resolveSchemaReference depth spec) (object_entries (js_get node ''properties'')) = Inr rp"
        "r = JObj (obj_set (obj_assign [] node) ''properties'' (JObj rp))"
        by (cases "map_entries (resolveSchemaReference depth spec) (object_entries (js_get node ''properties''))")
           simp_all
      with k nr True show ?thesis using object [of kvs rp] by (simp add: obj_assign_empty)
    next
      case no: False
      show ?thesis
      proof (cases "js_get node ''type'' = JStr ''array'' \<and> truthy (js_get node ''items'')")
        case True
        then obtain kvs where k: "node = JObj kvs"
          using typed_node_is_object [of node "''array''"] by auto
        from assms t nr no True have "(case resolveSchemaReference depth spec (js_get node ''items'') of
           Inl e \<Rightarrow> Inl e
         | Inr it \<Rightarrow> Inr (JObj (obj_set (obj_assign [] node) ''items'' it))) = Inr r"
          by simp
        then obtain it where
          "resolveSchemaReference depth spec (js_get node ''items'') = Inr it"
          "r = JObj (obj_set (obj_assign [] node) ''items'' it)"
          by (cases "resolveSchemaReference depth spec (js_get node ''items'')") simp_all
        with k nr True show ?thesis using array [of kvs it] by (simp add: obj_assign_empty)
      next
        case False
        with assms t nr no have "r = node" by simp
        with t nr no False show ?thesis by (rule unchanged)
      qed
    qed
  qed
qed

lemma resolve_no_unresolved_ref:
  "resolveSchemaReference depth spec node = Inr r \<Longrightarrow> \<not> unresolved_ref r"
proof (induction depth arbitrary: node r)
  case 0
  then show ?case by simp
next
  case (Suc depth)
  from Suc.prems show ?case
  proof (cases rule: resolve_result_cases)
    case falsy
    then show ?thesis by (simp add: no_ref_null)
  next
    case dangling
    then show ?thesis by (simp add: no_ref_null)
  next
    case (ref target)
    then show ?thesis using Suc.IH by blast
  next
    case (object kvs rp)
    show ?thesis
    proof
      assume "unresolved_ref r"
      then show False
      proof (cases rule: unresolved_ref.cases)
        case here
        with object show ?thesis by (simp add: map_of_obj_set)
      next
        case (in_property k v)
        with object have "(k, v) \<in> set rp" by (simp add: map_of_obj_set)
        from map_entries_mem [OF object(4) this] obtain v0
          where "resolveSchemaReference depth spec v0 = Inr v" by blast
        from Suc.IH [OF this] in_property show ?thesis by simp
      next
        case in_items
        with object show ?thesis by (simp add: map_of_obj_set)
      qed
    qed
  next
    case (array kvs it)
    show ?thesis
    proof
      assume "unresolved_ref r"
      then show False
      proof (cases rule: unresolved_ref.cases)
        case here
        with array show ?thesis by (simp add: map_of_obj_set)
      next
        case (in_property k v)
        with array show ?thesis by (simp add: map_of_obj_set)
      next
        case in_items
        with array have "unresolved_ref it" by (simp add: map_of_obj_set)
        with Suc.IH [OF array(4)] show ?thesis by simp
      qed
    qed
  next
    case unchanged
    then show ?thesis by (auto elim: unresolved_ref.cases)
  qed
qed

lemma resolve_again:
  "resolveSchemaReference depth spec node = Inr r \<Longrightarrow> depth \<le> depth'
   \<Longrightarrow> resolveSchemaReference depth' spec r = Inr r"
proof (induction depth arbitrary: node r depth')
  case 0
  then show ?case by simp
next
  case (Suc depth)
  from Suc.prems(2) obtain e where e: "depth' = Suc e" "depth \<le> e"
    by (cases depth') auto
  from Suc.prems(1) show ?case
  proof (cases rule: resolve_result_cases)
    case falsy
    with e show ?thesis by simp
  next
    case dangling
    with e show ?thesis by simp
  next
    case (ref target)
    from Suc.IH [OF ref(2), of depth'] e show ?thesis by simp
  next
    case (object kvs rp)
    have "\<And>k v. (k, v) \<in> set rp \<Longrightarrow> resolveSchemaReference e spec v = Inr v"
    proof -
      fix k v assume "(k, v) \<in> set rp"
      from map_entries_mem [OF object(4) this] obtain v0
        where "resolveSchemaReference depth spec v0 = Inr v" by blast
      from Suc.IH [OF this e(2)] show "resolveSchemaReference e spec v = Inr v" .
    qed
    then have "map_entries (resolveSchemaReference e spec) rp = Inr rp"
      by (rule map_entries_id)
    with object e show ?thesis
      by (simp add: map_of_obj_set obj_assign_empty obj_set_idem)
  next
    case (array kvs it)
    show ?thesis
    proof (cases "truthy it")
      case True
      from Suc.IH [OF array(4) e(2)] have "resolveSchemaReference e spec it = Inr it" .
      with array e True show ?thesis
        by (simp add: map_of_obj_set obj_assign_empty obj_set_idem)
    next
      case False
      with array e show ?thesis by (simp add: map_of_obj_set)
    qed
  next
    case unchanged
    with e show ?thesis by auto
  qed
qed

text \<open>
  Claim C7, as amended. When resolution returns a tree, no node reached through the
  properties of nodes of type \<open>object\<close> and the items of nodes of type \<open>array\<close> has a
  \<open>$ref\<close> that counts, and resolving the tree again returns the same tree.
\<close>
theorem resolved_schema_has_no_reference:
  assumes "resolveSchemaReference depth spec node = Inr r"
  shows "\<not> unresolved_ref r \<and> resolveSchemaReference depth spec r = Inr r"
  using assms resolve_no_unresolved_ref [OF assms] resolve_again [OF assms, of depth] by simp

lemma ex_nested_resolved:
  "resolveSchemaReference 5 ex_spec ex_nested_ref =
     Inr (JObj [(''type'', JStr ''object''),
           (''properties'', JObj
              [(''author'', the (walk_ref ex_spec (ref_path ''#/components/schemas/User''))),
               (''posts'', JObj [(''type'', JStr ''array''),
                                (''items'', the (walk_ref ex_spec (ref_path ''#/components/schemas/Post'')))])])])"
  by code_simp

text \<open>The theorem at a schema with a reference in a property and one in the items of an array.\<close>
theorem resolved_schema_has_no_reference_witness:
  "\<not> isl (resolveSchemaReference 5 ex_spec ex_nested_ref)
   \<and> \<not> unresolved_ref (projr (resolveSchemaReference 5 ex_spec ex_nested_ref))
   \<and> resolveSchemaReference 5 ex_spec (projr (resolveSchemaReference 5 ex_spec ex_nested_ref))
       = Inr (projr (resolveSchemaReference 5 ex_spec ex_nested_ref))"
proof -
  have r: "resolveSchemaReference 5 ex_spec ex_nested_ref
             = Inr (projr (resolveSchemaReference 5 ex_spec ex_nested_ref))"
    by (simp add: ex_nested_resolved)
  from resolved_schema_has_no_reference [OF r] r show ?thesis
    by (simp add: ex_nested_resolved)
qed

text \<open>
  Claim C7 as stated fails: a schema with \<open>properties\<close> and no \<open>type\<close> is returned
  as it is, with the \<open>$ref\<close> of its property.
\<close>
theorem untyped_properties_counterexample:
  "resolveSchemaReference 5 ex_spec ex_untyped_ref = Inr ex_untyped_ref
   \<and> ref_key_reachable ex_untyped_ref"
proof
  show "resolveSchemaReference 5 ex_spec ex_untyped_ref = Inr ex_untyped_ref"
    by code_simp
  have "ref_key_reachable (JObj [(''$ref'', JStr ''#/components/schemas/User'')])"
    by (rule key_here) simp
  then show "ref_key_reachable ex_untyped_ref"
    by (rule key_in_property [rotated]) (simp add: ex_untyped_ref_def)
qed

subsection \<open>Sample values of identifiers\<close>

lemma candidates_of_user_keys:
  "fk_candidates ''authorId'' = [(''author'', ''users'')]"
  "fk_candidates ''userId'' = [(''user'', ''users'')]"
  "fk_candidates ''ownerId'' = [(''owner'', ''users'')]"
  by code_simp+

lemma no_email_in_user_keys:
  "\<not> includes_str (toLowerCase ''authorId'') ''email''"
  "\<not> includes_str (toLowerCase ''userId'') ''email''"
  "\<not> includes_str (toLowerCase ''ownerId'') ''email''"
  by code_simp+

lemma upper_users: "toUpperCase ''users'' = ''USERS''"
  by code_simp

lemma uuid_sample_unfold:
  assumes "js_get propSchema ''type'' = JStr ''string''"
    and "js_get propSchema ''format'' = JStr ''uuid''"
    and "js_get propSchema ''example'' = JUndefined"
    and "\<not> truthy (js_get propSchema ''enum'')"
    and "\<not> includes_str (toLowerCase propName) ''email''"
  shows "generateSampleValueForProp endpoints (JStr propName) propSchema endpointName =
           (case find (\<lambda>c. map_of endpoints (snd c) \<noteq> None) (fk_candidates propName) of
              None \<Rightarrow> Inr (JStr ''123e4567-e89b-12d3-a456-426614174000'')
            | Some c \<Rightarrow> Inr (JStr (''{{DYNAMIC_'' @ toUpperCase (snd c) @ ''_ID}}'')))"
  using assms
  by (simp add: generateSampleValueForProp.simps [of endpoints "JStr propName"]
        detectForeignKeyRelationship_def Let_def split: option.splits)

text \<open>
  Claim C6, as amended. For a property of type \<open>string\<close> and format \<open>uuid\<close> without
  example or enum: named \<open>authorId\<close>, \<open>userId\<close> or \<open>ownerId\<close>, with \<open>users\<close> in the
  registry, its sample is the marker of \<open>users\<close>; and when its lower-cased name does
  not contain \<open>email\<close> and no candidate endpoint of its name is in the registry, its
  sample is the placeholder UUID.
\<close>
theorem uuid_property_sample:
  assumes "js_get propSchema ''type'' = JStr ''string''"
    and "js_get propSchema ''format'' = JStr ''uuid''"
    and "js_get propSchema ''example'' = JUndefined"
    and "\<not> truthy (js_get propSchema ''enum'')"
  shows "(propName \<in> {''authorId'', ''userId'', ''ownerId''} \<and> map_of endpoints ''users'' \<noteq> None
            \<longrightarrow> generateSampleValueForProp endpoints (JStr propName) propSchema endpointName
                  = Inr (JStr ''{{DYNAMIC_USERS_ID}}''))
       \<and> (\<not> includes_str (toLowerCase propName) ''email''
            \<and> (\<forall>c \<in> set (fk_candidates propName). map_of endpoints (snd c) = None)
            \<longrightarrow> generateSampleValueForProp endpoints (JStr propName) propSchema endpointName
                  = Inr (JStr ''123e4567-e89b-12d3-a456-426614174000''))"
proof (intro conjI impI)
  assume a: "propName \<in> {''authorId'', ''userId'', ''ownerId''} \<and> map_of endpoints ''users'' \<noteq> None"
  then have "\<not> includes_str (toLowerCase propName) ''email''"
    using no_email_in_user_keys by auto
  from uuid_sample_unfold [OF assms this] a
  show "generateSampleValueForProp endpoints (JStr propName) propSchema endpointName
          = Inr (JStr ''{{DYNAMIC_USERS_ID}}'')"
    by (auto simp: candidates_of_user_keys upper_users)
next
  assume b: "\<not> includes_str (toLowerCase propName) ''email''
             \<and> (\<forall>c \<in> set (fk_candidates propName). map_of endpoints (snd c) = None)"
  then have "find (\<lambda>c. map_of endpoints (snd c) \<noteq> None) (fk_candidates propName) = None"
    by (auto simp: find_None_iff)
  with uuid_sample_unfold [OF assms, of propName endpoints endpointName] b
  show "generateSampleValueForProp endpoints (JStr propName) propSchema endpointName
          = Inr (JStr ''123e4567-e89b-12d3-a456-426614174000'')"
    by simp
qed

text \<open>The theorem at \<open>authorId\<close> and at \<open>categoryId\<close>, in a registry without categories.\<close>
theorem uuid_property_sample_witness:
  "js_get ex_uuid_schema ''type'' = JStr ''string''
   \<and> js_get ex_uuid_schema ''format'' = JStr ''uuid''
   \<and> js_get ex_uuid_schema ''example'' = JUndefined
   \<and> \<not> truthy (js_get ex_uuid_schema ''enum'')
   \<and> map_of ex_endpoints ''users'' \<noteq> None
   \<and> generateSampleValueForProp ex_endpoints (JStr ''authorId'') ex_uuid_schema ''posts''
       = Inr (JStr ''{{DYNAMIC_USERS_ID}}'')
   \<and> fk_candidates ''categoryId'' = [(''category'', ''categories'')]
   \<and> map_of ex_endpoints ''categories'' = None
   \<and> generateSampleValueForProp ex_endpoints (JStr ''categoryId'') ex_uuid_schema ''posts''
       = Inr (JStr ''123e4567-e89b-12d3-a456-426614174000'')"
proof -
  have h: "js_get ex_uuid_schema ''type'' = JStr ''string''"
    "js_get ex_uuid_schema ''format'' = JStr ''uuid''"
    "js_get ex_uuid_schema ''example'' = JUndefined"
    "\<not> truthy (js_get ex_uuid_schema ''enum'')"
    by (simp_all add: ex_uuid_schema_def)
  have u: "map_of ex_endpoints ''users'' \<noteq> None" and c: "map_of ex_endpoints ''categories'' = None"
    by (simp_all add: ex_endpoints_def)
  have k: "fk_candidates ''categoryId'' = [(''category'', ''categories'')]"
    and e: "\<not> includes_str (toLowerCase ''categoryId'') ''email''"
    by code_simp+
  from uuid_property_sample [OF h, of "''authorId''" ex_endpoints "''posts''"] u
  have 1: "generateSampleValueForProp ex_endpoints (JStr ''authorId'') ex_uuid_schema ''posts''
       = Inr (JStr ''{{DYNAMIC_USERS_ID}}'')" by simp
  from uuid_property_sample [OF h, of "''categoryId''" ex_endpoints "''posts''"] c k e
  have 2: "generateSampleValueForProp ex_endpoints (JStr ''categoryId'') ex_uuid_schema ''posts''
       = Inr (JStr ''123e4567-e89b-12d3-a456-426614174000'')" by simp
  from h u c k 1 2 show ?thesis by simp
qed

text \<open>
  Claim C6 as stated fails: \<open>emailId\<close> of format \<open>uuid\<close>, whose endpoint \<open>emails\<close>
  does not exist, gets the sample e-mail address and not the placeholder UUID.
\<close>
theorem email_named_uuid_counterexample:
  "js_get ex_uuid_schema ''type'' = JStr ''string''
   \<and> js_get ex_uuid_schema ''format'' = JStr ''uuid''
   \<and> fk_candidates ''emailId'' = [(''email'', ''emails'')]
   \<and> generateSampleValueForProp [] (JStr ''emailId'') ex_uuid_schema ''users''
       = Inr (JStr ''workflow.test@example.com'')"
  by code_simp

lemmas ex_defs = ex_users_marker_def ex_dep_def ex_create_args_def ex_users_store_def
  ex_twice_args_def ex_merge_args_def ex_merge_store_def ex_empty_id_args_def
  ex_config_def ex_tools_def ex_server_def ex_state_def ex_op_def
  ex_list_tool_def ex_get_tool_def






lemma ex_list_users:
  "prepare_request (ex_server h) ex_list_tool args s
     = (case resolveContextReferences args s of
          Inl e \<Rightarrow> Inl e
        | Inr resolved \<Rightarrow>
            if truthy (js_get (JObj resolved) ''queryParams'')
            then Inr (''GET'', ''http://localhost:3000/api/users?'', JNull)
            else Inr (''GET'', ''http://localhost:3000/api/users'', JNull))"
  by (simp add: ex_defs prepare_request_def starts_with_def build_request_data_def
        http_method_of_def split: sum.splits)

lemma ex_resolve_plain:
  "resolveContextReferences (JObj [(''saveToContext'', JStr k)]) s = Inr [(''saveToContext'', JStr k)]"
  by (simp add: resolveContextReferences_def mergeFromContext_def obj_assign_def)

lemma ex_resolve_empty: "resolveContextReferences (JObj []) s = Inr []"
  by (simp add: resolveContextReferences_def mergeFromContext_def obj_assign_def)

lemma ex_server_simps:
  "srv_endpointTools (ex_server h) ''list_users'' = Some ex_list_tool"
  "srv_endpointTools (ex_server h) ''get_user'' = Some ex_get_tool"
  "srv_coreTools (ex_server h) n = None"
  "srv_http (ex_server h) = h"
  "map_of (cfg_workflows (srv_config (ex_server h))) ''w'' = Some ex_workflow"
  "map_of (cfg_endpoints (srv_config (ex_server h))) ''users'' \<noteq> None"
  by (simp_all add: ex_server_def ex_tools_def ex_config_def)

lemma ex_tool_simps:
  "tool_endpoint ex_list_tool = ''users''" "tool_method ex_list_tool = ''GET_COLLECTION''"
  "tool_endpoint ex_get_tool = ''users''" "tool_method ex_get_tool = ''GET''"
  "op_path (tool_operation ex_get_tool) = ''/users/{id}''"
  by (simp_all add: ex_list_tool_def ex_get_tool_def ex_op_def)

text \<open>The theorem at a listing of users saved as \<open>existing_users\<close>.\<close>
theorem saveToContext_effect_witness:
  "handleEndpointTool (ex_server ex_http_users) ''list_users''
       (JObj [(''saveToContext'', JStr ''existing_users'')]) (ex_state Map.empty)
     = (Inr (Response ''GET'' ''users'' 200 (JArr [JObj [(''id'', JStr ''u-1'')]])),
        \<lparr>store = ex_users_store,
         sent = [(''GET'', ''http://localhost:3000/api/users'', JNull)]\<rparr>)
   \<and> store \<lparr>store = ex_users_store, sent = [(''GET'', ''http://localhost:3000/api/users'', JNull)]\<rparr>
       = (if truthy (js_get (JObj [(''saveToContext'', JStr ''existing_users'')]) ''saveToContext'')
             \<and> truthy (JArr [JObj [(''id'', JStr ''u-1'')]])
          then (store (ex_state Map.empty))
                 (js_get (JObj [(''saveToContext'', JStr ''existing_users'')]) ''saveToContext''
                    \<mapsto> JArr [JObj [(''id'', JStr ''u-1'')]])
          else store (ex_state Map.empty))"
proof -
  have h: "handleEndpointTool (ex_server ex_http_users) ''list_users''
       (JObj [(''saveToContext'', JStr ''existing_users'')]) (ex_state Map.empty)
     = (Inr (Response ''GET'' ''users'' 200 (JArr [JObj [(''id'', JStr ''u-1'')]])),
        \<lparr>store = ex_users_store,
         sent = [(''GET'', ''http://localhost:3000/api/users'', JNull)]\<rparr>)"
    by (simp add: handleEndpointTool_def ex_server_simps ex_list_users ex_resolve_plain
          ex_tool_simps ex_state_def ex_http_users_def ex_users_store_def)
  from h saveToContext_effect [OF h] show ?thesis by blast
qed

text \<open>
  Claim C9 as stated fails: a successful call with \<open>saveToContext = k\<close> and an empty
  payload leaves the earlier value under \<open>k\<close>.
\<close>
theorem falsy_payload_counterexample:
  "handleEndpointTool (ex_server ex_http_empty) ''list_users''
       (JObj [(''saveToContext'', JStr ''k'')]) (ex_state [JStr ''k'' \<mapsto> JStr ''old''])
     = (Inr (Response ''GET'' ''users'' 204 (JStr [])),
        \<lparr>store = [JStr ''k'' \<mapsto> JStr ''old''],
         sent = [(''GET'', ''http://localhost:3000/api/users'', JNull)]\<rparr>)"
  by (simp add: handleEndpointTool_def ex_server_simps ex_list_users ex_resolve_plain
        ex_tool_simps ex_state_def ex_http_empty_def)

text \<open>The theorem at \<open>get_user\<close> called without arguments.\<close>
theorem missing_id_fails_before_request_witness:
  "srv_endpointTools (ex_server ex_http_users) ''get_user'' = Some ex_get_tool
   \<and> includes_str (op_path (tool_operation ex_get_tool)) ''{''
   \<and> resolveContextReferences (JObj []) (store (ex_state Map.empty)) = Inr []
   \<and> \<not> truthy (js_get (JObj []) ''id'')
   \<and> handleEndpointTool (ex_server ex_http_users) ''get_user'' (JObj []) (ex_state Map.empty)
        = (Inl (Error ''ID parameter is required for GET operation on /users/{id}''),
           ex_state Map.empty)"
proof -
  have h1: "srv_endpointTools (ex_server ex_http_users) ''get_user'' = Some ex_get_tool"
    by (simp add: ex_server_simps)
  have h2: "includes_str (op_path (tool_operation ex_get_tool)) ''{''"
    by (simp add: ex_tool_simps starts_with_def)
  have h3: "resolveContextReferences (JObj []) (store (ex_state Map.empty)) = Inr []"
    by (rule ex_resolve_empty)
  have h4: "\<not> truthy (js_get (JObj []) ''id'')" by simp
  have e: "map_of (cfg_endpoints (srv_config (ex_server ex_http_users))) (tool_endpoint ex_get_tool) \<noteq> None"
    by (simp add: ex_server_simps ex_tool_simps)
  from missing_id_fails_before_request [OF h1 h2 h3 h4] e
  have "handleEndpointTool (ex_server ex_http_users) ''get_user'' (JObj []) (ex_state Map.empty)
        = (Inl (Error ''ID parameter is required for GET operation on /users/{id}''),
           ex_state Map.empty)"
    by (auto simp: ex_tool_simps)
  with h1 h2 h3 h4 show ?thesis by blast
qed

text \<open>
  Claim C5 fails on the code when \<open>stopOnError\<close> is not supplied: the first step
  fails and the second one is dispatched all the same (two requests are sent).
\<close>
theorem stopOnError_not_supplied_continues:
  "js_get (JObj [(''workflow'', JStr ''w'')]) ''stopOnError'' = JUndefined
   \<and> handleRunWorkflow (ex_server ex_http_down) (JObj [(''workflow'', JStr ''w'')]) (ex_state Map.empty)
     = (Inr [Starting ''w'', Describing ''two lists'',
             StepStart 1 ''first'',
             Failed (Error ''GET_COLLECTION http://localhost:3000/api/users failed: No response received from server''),
             Blank,
             StepStart 2 ''second'',
             Failed (Error ''GET_COLLECTION http://localhost:3000/api/users failed: No response received from server''),
             Blank,
             Finished],
        \<lparr>store = Map.empty,
         sent = [(''GET'', ''http://localhost:3000/api/users'', JNull),
                 (''GET'', ''http://localhost:3000/api/users'', JNull)]\<rparr>)"
  by (simp add: handleRunWorkflow_def handleToolCall_def handleEndpointTool_def Let_def
        ex_server_simps ex_list_users ex_resolve_empty ex_tool_simps ex_state_def ex_http_down_def
        ex_workflow_def)

subsection \<open>Workflows\<close>









subsection \<open>Steps of a workflow\<close>



















end
